theory Spec2Isabelle
  imports Main
begin

section \<open>Configuration (module-level constants of bot.py)\<close>

text \<open>
  The handlers read four module globals. They are gathered in a record and passed to every
  function, so that each theorem holds for any setting of them; \<open>bot_config\<close> is the setting
  the source file has. Times are integers counting microseconds, the resolution of Python's
  \<open>datetime\<close> and \<open>timedelta\<close>.
\<close>

record config =
  OWNER_ID :: "int option"
  PHOTO_TTL :: int
  DELETE_ORIGINAL_PHOTO :: bool
  DELETE_ARCHIVE :: bool

definition bot_config :: config where
  "bot_config =
     \<lparr>OWNER_ID = None, PHOTO_TTL = 600000000,
      DELETE_ORIGINAL_PHOTO = True, DELETE_ARCHIVE = True\<rparr>"

definition ALLOWED_EXTENSIONS :: "string set" where
  "ALLOWED_EXTENSIONS =
     {''zip'', ''rar'', ''7z'', ''stl'', ''obj'', ''3mf'', ''step'', ''stp'', ''3ds'', ''fbx''}"

section \<open>Data model\<close>

record PhotoGroup =
  media_group_id :: "string option"
  file_ids :: "string list"
  message_ids :: "int list"
  created_at :: int

text \<open>
  The part of an aiogram \<open>Message\<close> the handlers read. \<open>photo\<close> holds the \<open>file_id\<close> of each
  \<open>PhotoSize\<close>; \<open>from_user\<close> holds the sender's \<open>id\<close>.
\<close>

record Document =
  file_name :: "string option"

record Message =
  chat_id :: int
  message_thread_id :: "int option"
  from_user :: "int option"
  message_id :: int
  msg_media_group_id :: "string option"
  photo :: "string list"
  document :: "Document option"

type_synonym key = "int \<times> int option"

text \<open>\<open>self.groups\<close>: a dict from keys to lists of photo groups.\<close>

type_synonym groups = "key \<rightharpoonup> PhotoGroup list"

record InputMediaPhoto =
  media :: string
  caption :: "string option"

text \<open>The calls made on \<open>self.bot\<close>, with their arguments.\<close>

datatype action =
  send_photo int string string "int option"
  | send_media_group int "InputMediaPhoto list" "int option"
  | delete_message int int

datatype error = IndexError | TransportError

datatype outcome = Returned | Raised error

text \<open>
  A handler run yields the dict as the run leaves it, the calls made on the bot in order,
  and whether the coroutine returned or an exception left it.
\<close>

type_synonym result = "groups \<times> action list \<times> outcome"

section \<open>Helpers\<close>

definition key_of :: "Message \<Rightarrow> key" where
  "key_of message = (chat_id message, message_thread_id message)"

definition skip_user :: "config \<Rightarrow> Message \<Rightarrow> bool" where
  "skip_user cfg message =
     (case OWNER_ID cfg of
        None \<Rightarrow> False
      | Some owner \<Rightarrow>
          (case from_user message of
             None \<Rightarrow> True
           | Some uid \<Rightarrow> uid \<noteq> owner))"

text \<open>
  \<open>_queue\<close>: registers an empty list under an absent key and returns \<open>groups[key]\<close>; the
  model returns the dict after the call and the list.
\<close>

definition queue :: "key \<Rightarrow> groups \<Rightarrow> groups \<times> PhotoGroup list" where
  "queue k g = (case g k of None \<Rightarrow> (g(k \<mapsto> []), []) | Some q \<Rightarrow> (g, q))"

text \<open>The test of the loop of \<open>_cleanup\<close>: \<open>(now - queue[0].created_at) > PHOTO_TTL\<close>.\<close>

definition expired :: "config \<Rightarrow> int \<Rightarrow> PhotoGroup \<Rightarrow> bool" where
  "expired cfg now b = (now - created_at b > PHOTO_TTL cfg)"

text \<open>The loop of \<open>_cleanup\<close>: pop the front while it is older than the TTL.\<close>

fun pop_expired :: "config \<Rightarrow> int \<Rightarrow> PhotoGroup list \<Rightarrow> PhotoGroup list" where
  "pop_expired cfg now [] = []"
| "pop_expired cfg now (b # q) =
     (if expired cfg now b then pop_expired cfg now q else b # q)"

text \<open>\<open>_cleanup\<close>; \<open>now\<close> is what its call of \<open>datetime.utcnow()\<close> returns.\<close>

definition cleanup :: "config \<Rightarrow> int \<Rightarrow> key \<Rightarrow> groups \<Rightarrow> groups" where
  "cleanup cfg now k g =
     (case g k of
        None \<Rightarrow> g
      | Some q \<Rightarrow>
          if q = [] then g
          else (let q' = pop_expired cfg now q
                in if q' = [] then g(k := None) else g(k \<mapsto> q')))"

text \<open>Truth value of an \<open>Optional[str]\<close>: \<open>None\<close> and the empty string are false.\<close>

definition truthy :: "string option \<Rightarrow> bool" where
  "truthy s = (case s of None \<Rightarrow> False | Some t \<Rightarrow> t \<noteq> [])"

text \<open>
  \<open>str.lower\<close> on the letters A to Z. File names are modelled as \<open>string\<close>; on a character
  outside ASCII Python's \<open>lower\<close> never yields a character of an allowed extension, so
  membership in \<open>ALLOWED_EXTENSIONS\<close> is decided by the ASCII letters alone.
\<close>

definition lower_char :: "char \<Rightarrow> char" where
  "lower_char c =
     (case map_of (zip ''ABCDEFGHIJKLMNOPQRSTUVWXYZ'' ''abcdefghijklmnopqrstuvwxyz'') c of
        None \<Rightarrow> c
      | Some l \<Rightarrow> l)"

definition lower :: "string \<Rightarrow> string" where
  "lower s = map lower_char s"

text \<open>\<open>s.rsplit(sep, 1)\<close>: split once at the last separator; no separator, one piece.\<close>

definition rsplit1 :: "char \<Rightarrow> string \<Rightarrow> string list" where
  "rsplit1 sep s =
     (let after = rev (takeWhile (\<lambda>c. c \<noteq> sep) (rev s))
      in if sep \<in> set s then [take (length s - length after - 1) s, after] else [s])"

text \<open>\<open>filename.rsplit(".", 1)[-1].lower()\<close>; the list is never empty.\<close>

definition extension :: "string \<Rightarrow> string" where
  "extension filename = lower (last (rsplit1 (CHR ''.'') filename))"

text \<open>The batches queued under a key: \<open>self.groups.get(key) or []\<close>.\<close>

definition pending :: "groups \<Rightarrow> key \<Rightarrow> PhotoGroup list" where
  "pending g k = (case g k of None \<Rightarrow> [] | Some q \<Rightarrow> q)"

section \<open>The transport\<close>

text \<open>
  A call on the bot may raise. \<open>fails n\<close> says whether the call made after \<open>n\<close> earlier calls
  of the same handler run raises; any pattern of failures is some \<open>fails\<close>.
\<close>

definition call :: "(nat \<Rightarrow> bool) \<Rightarrow> action list \<Rightarrow> action \<Rightarrow> action list \<times> bool" where
  "call fails tr a = (tr @ [a], fails (length tr))"

text \<open>\<open>try: await self.bot.delete_message(...) except Exception: pass\<close>\<close>

definition try_delete :: "(nat \<Rightarrow> bool) \<Rightarrow> int \<Rightarrow> int \<Rightarrow> action list \<Rightarrow> action list" where
  "try_delete fails chat mid tr = fst (call fails tr (delete_message chat mid))"

text \<open>\<open>for mid in group.message_ids: try ... except Exception: pass\<close>\<close>

fun delete_each :: "(nat \<Rightarrow> bool) \<Rightarrow> int \<Rightarrow> int list \<Rightarrow> action list \<Rightarrow> action list" where
  "delete_each fails chat [] tr = tr"
| "delete_each fails chat (mid # mids) tr =
     delete_each fails chat mids (try_delete fails chat mid tr)"

section \<open>The handlers\<close>

text \<open>
  Lines 88 to 100 of \<open>_handle_photo\<close>: extend the last group or append a new one.
\<close>

definition add_photo ::
  "string option \<Rightarrow> string \<Rightarrow> int \<Rightarrow> int \<Rightarrow> PhotoGroup list \<Rightarrow> PhotoGroup list" where
  "add_photo mgid file_id mid now q =
     (if truthy mgid \<and> q \<noteq> [] \<and> media_group_id (last q) = mgid
      then butlast q @
             [(last q)\<lparr>file_ids := file_ids (last q) @ [file_id],
                       message_ids := message_ids (last q) @ [mid]\<rparr>]
      else q @ [\<lparr>media_group_id = mgid, file_ids = [file_id],
                 message_ids = [mid], created_at = now\<rparr>])"

text \<open>
  \<open>_handle_photo\<close>. \<open>now\<close> is the clock reading of line 86, \<open>now_c\<close> the one \<open>_cleanup\<close> takes.
  \<open>message.photo[-1]\<close> raises on an empty list, after \<open>_queue\<close> has registered the key.
\<close>

definition handle_photo :: "config \<Rightarrow> int \<Rightarrow> int \<Rightarrow> Message \<Rightarrow> groups \<Rightarrow> result" where
  "handle_photo cfg now now_c message g =
     (if skip_user cfg message then (g, [], Returned)
      else
        (let k = key_of message
         in case queue k g of
              (g1, q) \<Rightarrow>
                if photo message = [] then (g1, [], Raised IndexError)
                else
                  (let q' = add_photo (msg_media_group_id message) (last (photo message))
                              (message_id message) now q
                   in (cleanup cfg now_c k (g1(k \<mapsto> q')), [], Returned))))"

text \<open>Lines 151 to 168 of \<open>_handle_document\<close>: the deletions and the final deregistration.\<close>

definition finish ::
  "config \<Rightarrow> (nat \<Rightarrow> bool) \<Rightarrow> Message \<Rightarrow> PhotoGroup \<Rightarrow> key \<Rightarrow> groups \<Rightarrow> action list \<Rightarrow> result" where
  "finish cfg fails message grp k g tr =
     (let tr1 = (if DELETE_ORIGINAL_PHOTO cfg
                 then delete_each fails (chat_id message) (message_ids grp) tr else tr);
          tr2 = (if DELETE_ARCHIVE cfg
                 then try_delete fails (chat_id message) (message_id message) tr1 else tr1);
          g' = (if g k = Some [] then g(k := None) else g)
      in (g', tr2, Returned))"

text \<open>Lines 133 to 149: the repost, then the rest when the call did not raise.\<close>

definition repost ::
  "config \<Rightarrow> (nat \<Rightarrow> bool) \<Rightarrow> Message \<Rightarrow> string \<Rightarrow> PhotoGroup \<Rightarrow> key \<Rightarrow> groups \<Rightarrow> result" where
  "repost cfg fails message filename grp k g =
     (if length (file_ids grp) = 1
      then
        (case call fails []
                (send_photo (chat_id message) (file_ids grp ! 0) filename
                   (message_thread_id message)) of
           (tr, raised) \<Rightarrow>
             if raised then (g, tr, Raised TransportError)
             else finish cfg fails message grp k g tr)
      else
        (case map (\<lambda>fid. \<lparr>media = fid, caption = None\<rparr>) (file_ids grp) of
           [] \<Rightarrow> (g, [], Raised IndexError)
         | m0 # ms \<Rightarrow>
             (case call fails []
                     (send_media_group (chat_id message)
                        (m0\<lparr>caption := Some filename\<rparr> # ms) (message_thread_id message)) of
                (tr, raised) \<Rightarrow>
                  if raised then (g, tr, Raised TransportError)
                  else finish cfg fails message grp k g tr)))"

text \<open>\<open>_handle_document\<close>; \<open>now\<close> is the clock reading \<open>_cleanup\<close> takes.\<close>

definition handle_document ::
  "config \<Rightarrow> (nat \<Rightarrow> bool) \<Rightarrow> int \<Rightarrow> Message \<Rightarrow> groups \<Rightarrow> result" where
  "handle_document cfg fails now message g =
     (if skip_user cfg message then (g, [], Returned)
      else
        (case document message of
           None \<Rightarrow> (g, [], Returned)
         | Some doc \<Rightarrow>
             (case file_name doc of
                None \<Rightarrow> (g, [], Returned)
              | Some filename \<Rightarrow>
                  if filename = [] then (g, [], Returned)
                  else if extension filename \<notin> ALLOWED_EXTENSIONS then (g, [], Returned)
                  else
                    (let k = key_of message
                     in case g k of
                          None \<Rightarrow> (g, [], Returned)
                        | Some q0 \<Rightarrow>
                            if q0 = [] then (g, [], Returned)
                            else
                              (let g1 = cleanup cfg now k g
                               in case g1 k of
                                    None \<Rightarrow> (g1, [], Returned)
                                  | Some [] \<Rightarrow> (g1, [], Returned)
                                  | Some (grp # rest) \<Rightarrow>
                                      if message_ids grp \<noteq> [] \<and>
                                         last (message_ids grp) \<ge> message_id message
                                      then (g1, [], Returned)
                                      else repost cfg fails message filename grp k
                                             (g1(k \<mapsto> rest)))))))"

section \<open>The invariant of a batch and the dicts a run can reach\<close>

definition batch_ok :: "PhotoGroup \<Rightarrow> bool" where
  "batch_ok b = (length (file_ids b) = length (message_ids b) \<and> 1 \<le> length (file_ids b))"

definition store_ok :: "groups \<Rightarrow> bool" where
  "store_ok g = (\<forall>k q. g k = Some q \<longrightarrow> (\<forall>b\<in>set q. batch_ok b))"

text \<open>
  The dict starts empty (\<open>__init__\<close>) and only the two handlers change it, each with any
  message, any clock readings and any failures of the transport, whether it returns or raises.
\<close>

inductive reachable :: "config \<Rightarrow> groups \<Rightarrow> bool" for cfg :: config where
  init: "reachable cfg Map.empty"
| photo_step:
    "reachable cfg g \<Longrightarrow> handle_photo cfg now now_c message g = (g', tr, out) \<Longrightarrow>
     reachable cfg g'"
| document_step:
    "reachable cfg g \<Longrightarrow> handle_document cfg fails now message g = (g', tr, out) \<Longrightarrow>
     reachable cfg g'"

section \<open>Messages and batches of the scenarios\<close>

definition photo_msg :: "int \<Rightarrow> string option \<Rightarrow> string \<Rightarrow> Message" where
  "photo_msg mid mgid fid =
     \<lparr>chat_id = 1, message_thread_id = None, from_user = Some 7, message_id = mid,
      msg_media_group_id = mgid, photo = [fid], document = None\<rparr>"

definition doc_msg :: "int \<Rightarrow> string \<Rightarrow> Message" where
  "doc_msg mid name =
     \<lparr>chat_id = 1, message_thread_id = None, from_user = Some 7, message_id = mid,
      msg_media_group_id = None, photo = [], document = Some \<lparr>file_name = Some name\<rparr>\<rparr>"

definition album_g1 :: PhotoGroup where
  "album_g1 =
     \<lparr>media_group_id = Some ''g1'', file_ids = [''P1'', ''P2''], message_ids = [10, 11],
      created_at = 0\<rparr>"

definition single_p1 :: PhotoGroup where
  "single_p1 =
     \<lparr>media_group_id = None, file_ids = [''P1''], message_ids = [5], created_at = 0\<rparr>"

section \<open>Eviction\<close>

lemma pop_expired_dropWhile: "pop_expired cfg now q = dropWhile (expired cfg now) q"
  by (induction q) auto

lemma pop_expired_idem: "pop_expired cfg now (pop_expired cfg now q) = pop_expired cfg now q"
  by (induction q) auto


section \<open>The document handler, case by case\<close>

lemma delete_each_trace:
  "delete_each fails chat mids tr = tr @ map (delete_message chat) mids"
  by (induction mids arbitrary: tr) (auto simp: try_delete_def call_def)

lemma finish_eq:
  "finish cfg fails message grp k g tr =
     ((if g k = Some [] then g(k := None) else g),
      tr @ (if DELETE_ORIGINAL_PHOTO cfg
            then map (delete_message (chat_id message)) (message_ids grp) else []) @
           (if DELETE_ARCHIVE cfg
            then [delete_message (chat_id message) (message_id message)] else []),
      Returned)"
  by (simp add: finish_def Let_def delete_each_trace try_delete_def call_def)

lemma repost_single:
  assumes "length (file_ids grp) = 1"
  shows "repost cfg fails message filename grp k g =
     (if fails 0
      then (g, [send_photo (chat_id message) (file_ids grp ! 0) filename
                  (message_thread_id message)], Raised TransportError)
      else finish cfg fails message grp k g
             [send_photo (chat_id message) (file_ids grp ! 0) filename
                (message_thread_id message)])"
  using assms by (simp add: repost_def call_def)

lemma repost_album:
  assumes "length (file_ids grp) > 1"
  shows "repost cfg fails message filename grp k g =
     (if fails 0
      then (g, [send_media_group (chat_id message)
                  (\<lparr>media = hd (file_ids grp), caption = Some filename\<rparr> #
                   map (\<lambda>fid. \<lparr>media = fid, caption = None\<rparr>) (tl (file_ids grp)))
                  (message_thread_id message)], Raised TransportError)
      else finish cfg fails message grp k g
             [send_media_group (chat_id message)
                  (\<lparr>media = hd (file_ids grp), caption = Some filename\<rparr> #
                   map (\<lambda>fid. \<lparr>media = fid, caption = None\<rparr>) (tl (file_ids grp)))
                  (message_thread_id message)])"
proof -
  from assms obtain f fs where "file_ids grp = f # fs" by (cases "file_ids grp") auto
  with assms show ?thesis by (simp add: repost_def call_def)
qed

lemma repost_empty:
  assumes "file_ids grp = []"
  shows "repost cfg fails message filename grp k g = (g, [], Raised IndexError)"
  using assms by (simp add: repost_def)

lemma repost_store:
  "fst (repost cfg fails message filename grp k g) = g \<or>
   fst (repost cfg fails message filename grp k g) = (if g k = Some [] then g(k := None) else g)"
proof -
  consider "file_ids grp = []" | "length (file_ids grp) = 1" | "length (file_ids grp) > 1"
    by (cases "file_ids grp") auto
  then show ?thesis
    by cases (auto simp: repost_empty repost_single repost_album finish_eq)
qed

lemma cleanup_at:
  assumes "g k = Some q" "q \<noteq> []"
  shows "cleanup cfg now k g =
     (if pop_expired cfg now q = [] then g(k := None) else g(k \<mapsto> pop_expired cfg now q))"
  using assms by (simp add: cleanup_def Let_def)

lemma cleanup_other: "k' \<noteq> k \<Longrightarrow> cleanup cfg now k g k' = g k'"
  by (auto simp: cleanup_def Let_def split: option.splits)

lemma handle_document_match:
  assumes "\<not> skip_user cfg message"
    and "document message = Some doc" and "file_name doc = Some filename"
    and "filename \<noteq> []" and "extension filename \<in> ALLOWED_EXTENSIONS"
    and "g (key_of message) = Some q" and "pop_expired cfg now q = grp # rest"
    and "\<not> (message_ids grp \<noteq> [] \<and> last (message_ids grp) \<ge> message_id message)"
  shows "handle_document cfg fails now message g =
     repost cfg fails message filename grp (key_of message) (g(key_of message \<mapsto> rest))"
proof -
  from assms(7) have "q \<noteq> []" by auto
  with assms(6,7) have "cleanup cfg now (key_of message) g = g(key_of message \<mapsto> grp # rest)"
    by (simp add: cleanup_at)
  with assms \<open>q \<noteq> []\<close> show ?thesis
    by (auto simp: handle_document_def Let_def)
qed

lemma handle_document_cases:
  "handle_document cfg fails now message g = (g, [], Returned) \<or>
   handle_document cfg fails now message g = (cleanup cfg now (key_of message) g, [], Returned) \<or>
   (\<exists>doc filename q grp rest.
      \<not> skip_user cfg message \<and> document message = Some doc \<and> file_name doc = Some filename \<and>
      filename \<noteq> [] \<and> extension filename \<in> ALLOWED_EXTENSIONS \<and>
      g (key_of message) = Some q \<and> pop_expired cfg now q = grp # rest \<and>
      \<not> (message_ids grp \<noteq> [] \<and> last (message_ids grp) \<ge> message_id message))"
proof (cases "skip_user cfg message")
  case True
  then show ?thesis by (simp add: handle_document_def)
next
  case ns: False
  show ?thesis
  proof (cases "document message")
    case None
    with ns show ?thesis by (simp add: handle_document_def)
  next
    case (Some doc)
    show ?thesis
    proof (cases "file_name doc")
      case None
      with ns Some show ?thesis by (simp add: handle_document_def)
    next
      case fn: (Some filename)
      show ?thesis
      proof (cases "filename = [] \<or> extension filename \<notin> ALLOWED_EXTENSIONS")
        case True
        with ns Some fn show ?thesis by (auto simp: handle_document_def)
      next
        case ok: False
        show ?thesis
        proof (cases "g (key_of message)")
          case None
          with ns Some fn ok show ?thesis by (simp add: handle_document_def)
        next
          case q: (Some q)
          show ?thesis
          proof (cases "q = []")
            case True
            with ns Some fn ok q show ?thesis by (simp add: handle_document_def)
          next
            case ne: False
            show ?thesis
            proof (cases "pop_expired cfg now q")
              case Nil
              with ns Some fn ok q ne show ?thesis
                by (simp add: handle_document_def cleanup_at)
            next
              case (Cons grp rest)
              show ?thesis
              proof (cases "message_ids grp \<noteq> [] \<and> last (message_ids grp) \<ge> message_id message")
                case True
                with ns Some fn ok q ne Cons show ?thesis
                  by (simp add: handle_document_def cleanup_at)
              next
                case False
                with ns Some fn ok q Cons show ?thesis by blast
              qed
            qed
          qed
        qed
      qed
    qed
  qed
qed

section \<open>Claims\<close>

text \<open>
  C8. Eviction is idempotent: for every key, dict, clock reading and TTL, a second
  \<open>_cleanup\<close> with the same clock reading leaves the dict as the first one left it.
\<close>

theorem cleanup_idempotent:
  "cleanup cfg now k (cleanup cfg now k g) = cleanup cfg now k g"
  by (auto simp: cleanup_def Let_def pop_expired_idem split: option.splits)

lemmas scenario_defs = doc_msg_def photo_msg_def album_g1_def single_p1_def bot_config_def
  key_of_def skip_user_def extension_def rsplit1_def lower_def lower_char_def
  ALLOWED_EXTENSIONS_def expired_def

text \<open>
  C1. A document that passes the sender check, the extension filter, the checks for a
  non-empty queue, the eviction and the ordering check consumes exactly the front batch of
  the queue as eviction left it: the queue is left with the batches after it, no other key is
  touched, and the first call on the bot is the repost of that batch, a single photo with the
  file name as caption when the batch has one photo, an album in batch order with the caption
  on the first item only when it has more; every later call is a deletion.
\<close>

theorem document_match_consumes_front:
  assumes "\<not> skip_user cfg message"
    and "document message = Some doc" and "file_name doc = Some filename"
    and "filename \<noteq> []" and "extension filename \<in> ALLOWED_EXTENSIONS"
    and "g (key_of message) = Some q" and "pop_expired cfg now q = grp # rest"
    and "\<not> (message_ids grp \<noteq> [] \<and> last (message_ids grp) \<ge> message_id message)"
    and "handle_document cfg fails now message g = (g', tr, out)"
  shows "pending g' (key_of message) = rest \<and>
    (\<forall>k'. k' \<noteq> key_of message \<longrightarrow> g' k' = g k') \<and>
    (length (file_ids grp) = 1 \<longrightarrow>
       (\<exists>ds. tr = send_photo (chat_id message) (file_ids grp ! 0) filename
                    (message_thread_id message) # ds \<and>
             (\<forall>a\<in>set ds. \<exists>c i. a = delete_message c i))) \<and>
    (length (file_ids grp) > 1 \<longrightarrow>
       (\<exists>ds. tr = send_media_group (chat_id message)
                    (\<lparr>media = hd (file_ids grp), caption = Some filename\<rparr> #
                     map (\<lambda>fid. \<lparr>media = fid, caption = None\<rparr>) (tl (file_ids grp)))
                    (message_thread_id message) # ds \<and>
             (\<forall>a\<in>set ds. \<exists>c i. a = delete_message c i)))"
proof -
  let ?k = "key_of message"
  have r: "repost cfg fails message filename grp ?k (g(?k \<mapsto> rest)) = (g', tr, out)"
    using handle_document_match[where g = g and fails = fails, OF assms(1-8)] assms(9) by simp
  have st: "g' = g(?k \<mapsto> rest) \<or> g' = (if rest = [] then g(?k := None) else g(?k \<mapsto> rest))"
    using repost_store[of cfg fails message filename grp ?k "g(?k \<mapsto> rest)"] r by auto
  from st have p1: "pending g' ?k = rest"
    by (auto simp: pending_def split: if_splits)
  from st have p2: "\<forall>k'. k' \<noteq> ?k \<longrightarrow> g' k' = g k'"
    by (auto split: if_splits)
  have p3: "length (file_ids grp) = 1 \<longrightarrow>
       (\<exists>ds. tr = send_photo (chat_id message) (file_ids grp ! 0) filename
                    (message_thread_id message) # ds \<and>
             (\<forall>a\<in>set ds. \<exists>c i. a = delete_message c i))"
    using r by (auto simp: repost_single finish_eq split: if_splits)
  have p4: "length (file_ids grp) > 1 \<longrightarrow>
       (\<exists>ds. tr = send_media_group (chat_id message)
                    (\<lparr>media = hd (file_ids grp), caption = Some filename\<rparr> #
                     map (\<lambda>fid. \<lparr>media = fid, caption = None\<rparr>) (tl (file_ids grp)))
                    (message_thread_id message) # ds \<and>
             (\<forall>a\<in>set ds. \<exists>c i. a = delete_message c i))"
    using r by (auto simp: repost_album finish_eq split: if_splits)
  from p1 p2 p3 p4 show ?thesis by blast
qed

theorem document_match_consumes_front_witness:
  "\<not> skip_user bot_config (doc_msg 12 ''model.stl'') \<and>
   extension ''model.stl'' \<in> ALLOWED_EXTENSIONS \<and>
   pop_expired bot_config 5 [album_g1, single_p1] = album_g1 # [single_p1] \<and>
   \<not> (message_ids album_g1 \<noteq> [] \<and> last (message_ids album_g1) \<ge> message_id (doc_msg 12 ''model.stl'')) \<and>
   handle_document bot_config (\<lambda>n. False) 5 (doc_msg 12 ''model.stl'')
       [(1, None) \<mapsto> [album_g1, single_p1]] =
     ([(1, None) \<mapsto> [single_p1]],
      [send_media_group 1 [\<lparr>media = ''P1'', caption = Some ''model.stl''\<rparr>,
                           \<lparr>media = ''P2'', caption = None\<rparr>] None,
       delete_message 1 10, delete_message 1 11, delete_message 1 12], Returned) \<and>
   pending [(1, None) \<mapsto> [single_p1]] (key_of (doc_msg 12 ''model.stl'')) = [single_p1]"
proof -
  have h1: "\<not> skip_user bot_config (doc_msg 12 ''model.stl'')"
    by (simp add: scenario_defs)
  have h2: "document (doc_msg 12 ''model.stl'') = Some \<lparr>file_name = Some ''model.stl''\<rparr>"
    by (simp add: scenario_defs)
  have h3: "file_name \<lparr>file_name = Some ''model.stl''\<rparr> = Some ''model.stl''" by simp
  have h4: "''model.stl'' \<noteq> []" by simp
  have h5: "extension ''model.stl'' \<in> ALLOWED_EXTENSIONS"
    by (simp add: scenario_defs)
  have h6: "[(1, None) \<mapsto> [album_g1, single_p1]] (key_of (doc_msg 12 ''model.stl''))
      = Some [album_g1, single_p1]"
    by (simp add: scenario_defs)
  have h7: "pop_expired bot_config 5 [album_g1, single_p1] = album_g1 # [single_p1]"
    by (simp add: scenario_defs)
  have h8: "\<not> (message_ids album_g1 \<noteq> [] \<and>
     last (message_ids album_g1) \<ge> message_id (doc_msg 12 ''model.stl''))"
    by (simp add: scenario_defs)
  have h9: "handle_document bot_config (\<lambda>n. False) 5 (doc_msg 12 ''model.stl'')
       [(1, None) \<mapsto> [album_g1, single_p1]] =
     ([(1, None) \<mapsto> [single_p1]],
      [send_media_group 1 [\<lparr>media = ''P1'', caption = Some ''model.stl''\<rparr>,
                           \<lparr>media = ''P2'', caption = None\<rparr>] None,
       delete_message 1 10, delete_message 1 11, delete_message 1 12], Returned)"
    by (simp add: handle_document_def cleanup_def repost_def finish_def call_def
        try_delete_def scenario_defs)
  from document_match_consumes_front[where g = "[(1, None) \<mapsto> [album_g1, single_p1]]",
      OF h1 h2 h3 h4 h5 h6 h7 h8 h9]
  have "pending [(1, None) \<mapsto> [single_p1]] (key_of (doc_msg 12 ''model.stl'')) = [single_p1]"
    by blast
  with h1 h5 h7 h8 h9 show ?thesis by blast
qed

lemma cleanup_again:
  "cleanup cfg now k (cleanup cfg now k g) k = cleanup cfg now k g k"
  by (auto simp: cleanup_def Let_def pop_expired_idem split: option.splits)

text \<open>
  C3. When the front batch of the queue as eviction leaves it has a last message id that is
  greater than or equal to the document's message id, the document matches nothing: the
  handler makes no call on the bot and returns, the dict is the one before the call or the one
  eviction leaves (the latter whenever the document passed the sender check and the extension
  filter), and the evicted queue still has the same front batch and the same batches after it.
\<close>

theorem document_not_after_front_is_ignored:
  assumes "cleanup cfg now (key_of message) g (key_of message) = Some (grp # rest)"
    and "message_ids grp \<noteq> []"
    and "message_id message \<le> last (message_ids grp)"
    and "handle_document cfg fails now message g = (g', tr, out)"
  shows "tr = [] \<and> out = Returned \<and>
    (g' = g \<or> g' = cleanup cfg now (key_of message) g) \<and>
    cleanup cfg now (key_of message) g' (key_of message) = Some (grp # rest) \<and>
    (\<not> skip_user cfg message \<and> document message = Some doc \<and>
     file_name doc = Some filename \<and> filename \<noteq> [] \<and>
     extension filename \<in> ALLOWED_EXTENSIONS \<longrightarrow>
       g' = cleanup cfg now (key_of message) g)"
proof -
  let ?k = "key_of message"
  from assms(1) obtain q where q: "g ?k = Some q" "q \<noteq> []"
    by (auto simp: cleanup_def Let_def split: option.splits if_splits)
  with assms(1) have pe: "pop_expired cfg now q = grp # rest"
    by (auto simp: cleanup_at split: if_splits)
  have nomatch: "\<not> (\<exists>doc filename q grp rest.
      \<not> skip_user cfg message \<and> document message = Some doc \<and> file_name doc = Some filename \<and>
      filename \<noteq> [] \<and> extension filename \<in> ALLOWED_EXTENSIONS \<and>
      g ?k = Some q \<and> pop_expired cfg now q = grp # rest \<and>
      \<not> (message_ids grp \<noteq> [] \<and> last (message_ids grp) \<ge> message_id message))"
    using q pe assms(2,3) by auto
  with handle_document_cases[of cfg fails now message g] assms(4)
  have c: "(g', tr, out) = (g, [], Returned) \<or> (g', tr, out) = (cleanup cfg now ?k g, [], Returned)"
    by auto
  then have p1: "tr = [] \<and> out = Returned \<and> (g' = g \<or> g' = cleanup cfg now ?k g)"
    by auto
  then have p2: "cleanup cfg now ?k g' ?k = Some (grp # rest)"
    using assms(1) by (auto simp add: cleanup_again)
  have p3: "g' = cleanup cfg now ?k g"
    if "\<not> skip_user cfg message" "document message = Some doc"
       "file_name doc = Some filename" "filename \<noteq> []"
       "extension filename \<in> ALLOWED_EXTENSIONS"
    using that q pe assms(2,3,4)
    by (auto simp: handle_document_def cleanup_at)
  from p1 p2 p3 show ?thesis by blast
qed

theorem document_not_after_front_is_ignored_witness:
  "cleanup bot_config 5 (key_of (doc_msg 11 ''model.stl'')) [(1, None) \<mapsto> [album_g1]]
      (key_of (doc_msg 11 ''model.stl'')) = Some (album_g1 # []) \<and>
   message_ids album_g1 \<noteq> [] \<and>
   message_id (doc_msg 11 ''model.stl'') \<le> last (message_ids album_g1) \<and>
   handle_document bot_config (\<lambda>n. False) 5 (doc_msg 11 ''model.stl'')
      [(1, None) \<mapsto> [album_g1]] = ([(1, None) \<mapsto> [album_g1]], [], Returned)"
proof -
  have h1: "cleanup bot_config 5 (key_of (doc_msg 11 ''model.stl'')) [(1, None) \<mapsto> [album_g1]]
      (key_of (doc_msg 11 ''model.stl'')) = Some (album_g1 # [])"
    by (simp add: cleanup_def scenario_defs)
  have h2: "message_ids album_g1 \<noteq> []" by (simp add: scenario_defs)
  have h3: "message_id (doc_msg 11 ''model.stl'') \<le> last (message_ids album_g1)"
    by (simp add: scenario_defs)
  have h4: "handle_document bot_config (\<lambda>n. False) 5 (doc_msg 11 ''model.stl'')
      [(1, None) \<mapsto> [album_g1]] =
      (fst (handle_document bot_config (\<lambda>n. False) 5 (doc_msg 11 ''model.stl'')
              [(1, None) \<mapsto> [album_g1]]),
       fst (snd (handle_document bot_config (\<lambda>n. False) 5 (doc_msg 11 ''model.stl'')
              [(1, None) \<mapsto> [album_g1]])),
       snd (snd (handle_document bot_config (\<lambda>n. False) 5 (doc_msg 11 ''model.stl'')
              [(1, None) \<mapsto> [album_g1]])))"
    by simp
  have h5: "\<not> skip_user bot_config (doc_msg 11 ''model.stl'') \<and>
     document (doc_msg 11 ''model.stl'') = Some \<lparr>file_name = Some ''model.stl''\<rparr> \<and>
     file_name \<lparr>file_name = Some ''model.stl''\<rparr> = Some ''model.stl'' \<and> ''model.stl'' \<noteq> [] \<and>
     extension ''model.stl'' \<in> ALLOWED_EXTENSIONS"
    by (simp add: scenario_defs)
  have c: "cleanup bot_config 5 (key_of (doc_msg 11 ''model.stl'')) [(1, None) \<mapsto> [album_g1]]
     = [(1, None) \<mapsto> [album_g1]]"
    by (simp add: cleanup_def scenario_defs)
  from document_not_after_front_is_ignored[where g = "[(1, None) \<mapsto> [album_g1]]"
      and doc = "\<lparr>file_name = Some ''model.stl''\<rparr>" and filename = "''model.stl''",
      OF h1 h2 h3 h4] h5 c
  have "handle_document bot_config (\<lambda>n. False) 5 (doc_msg 11 ''model.stl'')
      [(1, None) \<mapsto> [album_g1]] = ([(1, None) \<mapsto> [album_g1]], [], Returned)"
    by (metis prod.collapse)
  with h1 h2 h3 show ?thesis by blast
qed

text \<open>
  C9. After a match whose repost did not raise, every deletion is attempted whatever the
  earlier ones did: for any pattern of failures of the later calls, the calls made are the
  repost, then (when \<open>DELETE_ORIGINAL_PHOTO\<close> is set) one deletion for every message id of
  the consumed batch, in order, then (when \<open>DELETE_ARCHIVE\<close> is set) the deletion of the
  document message; and the handler returns, no exception leaves it.
\<close>

theorem deletions_are_best_effort:
  assumes "\<not> skip_user cfg message"
    and "document message = Some doc" and "file_name doc = Some filename"
    and "filename \<noteq> []" and "extension filename \<in> ALLOWED_EXTENSIONS"
    and "g (key_of message) = Some q" and "pop_expired cfg now q = grp # rest"
    and "\<not> (message_ids grp \<noteq> [] \<and> last (message_ids grp) \<ge> message_id message)"
    and "file_ids grp \<noteq> []"
    and "\<not> fails 0"
  shows "\<exists>a. (\<forall>c i. a \<noteq> delete_message c i) \<and>
    snd (handle_document cfg fails now message g) =
      (a # (if DELETE_ORIGINAL_PHOTO cfg
            then map (delete_message (chat_id message)) (message_ids grp) else []) @
           (if DELETE_ARCHIVE cfg
            then [delete_message (chat_id message) (message_id message)] else []),
       Returned)"
proof -
  let ?k = "key_of message"
  have r: "handle_document cfg fails now message g =
      repost cfg fails message filename grp ?k (g(?k \<mapsto> rest))"
    by (rule handle_document_match[where g = g and fails = fails, OF assms(1-8)])
  consider "length (file_ids grp) = 1" | "length (file_ids grp) > 1"
    using assms(9) by (cases "file_ids grp") auto
  then show ?thesis
  proof cases
    case 1
    with assms(10) show ?thesis
      unfolding r by (simp add: repost_single finish_eq)
  next
    case 2
    with assms(10) show ?thesis
      unfolding r by (simp add: repost_album finish_eq)
  qed
qed

theorem deletions_are_best_effort_witness:
  "\<not> skip_user bot_config (doc_msg 12 ''model.stl'') \<and>
   extension ''model.stl'' \<in> ALLOWED_EXTENSIONS \<and>
   pop_expired bot_config 5 [album_g1] = album_g1 # [] \<and>
   file_ids album_g1 \<noteq> [] \<and> \<not> (\<lambda>n. 0 < n) (0::nat) \<and>
   snd (handle_document bot_config (\<lambda>n. 0 < n) 5 (doc_msg 12 ''model.stl'')
          [(1, None) \<mapsto> [album_g1]]) =
     ([send_media_group 1 [\<lparr>media = ''P1'', caption = Some ''model.stl''\<rparr>,
                           \<lparr>media = ''P2'', caption = None\<rparr>] None,
       delete_message 1 10, delete_message 1 11, delete_message 1 12], Returned)"
proof -
  have h1: "\<not> skip_user bot_config (doc_msg 12 ''model.stl'')"
    by (simp add: scenario_defs)
  have h2: "document (doc_msg 12 ''model.stl'') = Some \<lparr>file_name = Some ''model.stl''\<rparr>"
    by (simp add: scenario_defs)
  have h3: "file_name \<lparr>file_name = Some ''model.stl''\<rparr> = Some ''model.stl''" by simp
  have h4: "''model.stl'' \<noteq> []" by simp
  have h5: "extension ''model.stl'' \<in> ALLOWED_EXTENSIONS"
    by (simp add: scenario_defs)
  have h6: "[(1, None) \<mapsto> [album_g1]] (key_of (doc_msg 12 ''model.stl'')) = Some [album_g1]"
    by (simp add: scenario_defs)
  have h7: "pop_expired bot_config 5 [album_g1] = album_g1 # []"
    by (simp add: scenario_defs)
  have h8: "\<not> (message_ids album_g1 \<noteq> [] \<and>
     last (message_ids album_g1) \<ge> message_id (doc_msg 12 ''model.stl''))"
    by (simp add: scenario_defs)
  have h9: "file_ids album_g1 \<noteq> []" by (simp add: scenario_defs)
  have h10: "\<not> (\<lambda>n. 0 < n) (0::nat)" by simp
  from deletions_are_best_effort[where g = "[(1, None) \<mapsto> [album_g1]]"
      and fails = "\<lambda>n. 0 < n", OF h1 h2 h3 h4 h5 h6 h7 h8 h9 h10]
  obtain a where a: "snd (handle_document bot_config (\<lambda>n. 0 < n) 5 (doc_msg 12 ''model.stl'')
          [(1, None) \<mapsto> [album_g1]]) =
      (a # (if DELETE_ORIGINAL_PHOTO bot_config
            then map (delete_message (chat_id (doc_msg 12 ''model.stl''))) (message_ids album_g1)
            else []) @
           (if DELETE_ARCHIVE bot_config
            then [delete_message (chat_id (doc_msg 12 ''model.stl''))
                    (message_id (doc_msg 12 ''model.stl''))] else []),
       Returned)"
    by blast
  have e: "snd (handle_document bot_config (\<lambda>n. 0 < n) 5 (doc_msg 12 ''model.stl'')
          [(1, None) \<mapsto> [album_g1]]) =
     ([send_media_group 1 [\<lparr>media = ''P1'', caption = Some ''model.stl''\<rparr>,
                           \<lparr>media = ''P2'', caption = None\<rparr>] None,
       delete_message 1 10, delete_message 1 11, delete_message 1 12], Returned)"
    using a
    by (simp add: handle_document_def cleanup_def repost_def finish_def call_def
        try_delete_def scenario_defs)
  with h1 h5 h7 h9 h10 show ?thesis by blast
qed

lemma pop_expired_all:
  "\<forall>b\<in>set q. expired cfg now b \<Longrightarrow> pop_expired cfg now q = []"
  by (induction q) auto



lemma handle_photo_processed:
  assumes "\<not> skip_user cfg message" and "photo message \<noteq> []"
  shows "handle_photo cfg now now_c message g =
     (cleanup cfg now_c (key_of message)
        (g(key_of message \<mapsto>
             add_photo (msg_media_group_id message) (last (photo message))
               (message_id message) now (pending g (key_of message)))),
      [], Returned)"
  using assms
  by (auto simp: handle_photo_def queue_def pending_def Let_def split: option.splits)

text \<open>
  C4. A photo extends the last batch of the queue exactly when there is one, its
  \<open>media_group_id\<close> is non-empty and it equals the message's; then the file id and the
  message id are appended to that batch and every batch before it stays as it is. In every
  other case a new batch with the message's group id, one file id, one message id and the
  clock reading is appended after all batches, which stay as they are. The handler of an
  accepted photo stores that queue and then runs the eviction.
\<close>

theorem photo_extends_tail_iff:
  "add_photo mgid fid mid now q =
     (if q \<noteq> [] \<and> truthy (media_group_id (last q)) \<and> media_group_id (last q) = mgid
      then butlast q @
             [(last q)\<lparr>file_ids := file_ids (last q) @ [fid],
                       message_ids := message_ids (last q) @ [mid]\<rparr>]
      else q @ [\<lparr>media_group_id = mgid, file_ids = [fid],
                 message_ids = [mid], created_at = now\<rparr>]) \<and>
   (\<not> skip_user cfg message \<and> photo message \<noteq> [] \<longrightarrow>
      handle_photo cfg now now_c message g =
        (cleanup cfg now_c (key_of message)
           (g(key_of message \<mapsto>
                add_photo (msg_media_group_id message) (last (photo message))
                  (message_id message) now (pending g (key_of message)))),
         [], Returned))"
proof -
  have "add_photo mgid fid mid now q =
     (if q \<noteq> [] \<and> truthy (media_group_id (last q)) \<and> media_group_id (last q) = mgid
      then butlast q @
             [(last q)\<lparr>file_ids := file_ids (last q) @ [fid],
                       message_ids := message_ids (last q) @ [mid]\<rparr>]
      else q @ [\<lparr>media_group_id = mgid, file_ids = [fid],
                 message_ids = [mid], created_at = now\<rparr>])"
    by (auto simp: add_photo_def)
  then show ?thesis
    using handle_photo_processed[of cfg message now now_c g] by blast
qed

theorem photo_extends_tail_iff_witness:
  "\<not> skip_user bot_config (photo_msg 12 (Some ''g1'') ''P3'') \<and>
   photo (photo_msg 12 (Some ''g1'') ''P3'') \<noteq> [] \<and>
   pending (fst (handle_photo bot_config 7 8 (photo_msg 12 (Some ''g1'') ''P3'')
      [(1, None) \<mapsto> [single_p1, album_g1]])) (1, None) =
     [single_p1, album_g1\<lparr>file_ids := [''P1'', ''P2'', ''P3''], message_ids := [10, 11, 12]\<rparr>] \<and>
   pending (fst (handle_photo bot_config 7 8 (photo_msg 12 (Some ''g2'') ''P3'')
      [(1, None) \<mapsto> [single_p1, album_g1]])) (1, None) =
     [single_p1, album_g1,
      \<lparr>media_group_id = Some ''g2'', file_ids = [''P3''], message_ids = [12], created_at = 7\<rparr>]"
proof -
  have h1: "\<not> skip_user bot_config (photo_msg 12 (Some ''g1'') ''P3'')"
    by (simp add: scenario_defs)
  have h2: "photo (photo_msg 12 (Some ''g1'') ''P3'') \<noteq> []"
    by (simp add: scenario_defs)
  have h3: "\<not> skip_user bot_config (photo_msg 12 (Some ''g2'') ''P3'')"
    by (simp add: scenario_defs)
  have h4: "photo (photo_msg 12 (Some ''g2'') ''P3'') \<noteq> []"
    by (simp add: scenario_defs)
  have a: "pending (fst (handle_photo bot_config 7 8 (photo_msg 12 (Some ''g1'') ''P3'')
      [(1, None) \<mapsto> [single_p1, album_g1]])) (1, None) =
     [single_p1, album_g1\<lparr>file_ids := [''P1'', ''P2'', ''P3''], message_ids := [10, 11, 12]\<rparr>]"
    using photo_extends_tail_iff[of "Some ''g1''" "''P3''" 12 7 "[single_p1, album_g1]"
        bot_config "photo_msg 12 (Some ''g1'') ''P3''" 8 "[(1, None) \<mapsto> [single_p1, album_g1]]"]
      h1 h2
    by (simp add: pending_def cleanup_def truthy_def scenario_defs)
  have b: "pending (fst (handle_photo bot_config 7 8 (photo_msg 12 (Some ''g2'') ''P3'')
      [(1, None) \<mapsto> [single_p1, album_g1]])) (1, None) =
     [single_p1, album_g1,
      \<lparr>media_group_id = Some ''g2'', file_ids = [''P3''], message_ids = [12], created_at = 7\<rparr>]"
    using photo_extends_tail_iff[of "Some ''g2''" "''P3''" 12 7 "[single_p1, album_g1]"
        bot_config "photo_msg 12 (Some ''g2'') ''P3''" 8 "[(1, None) \<mapsto> [single_p1, album_g1]]"]
      h3 h4
    by (simp add: pending_def cleanup_def truthy_def scenario_defs)
  from h1 h2 a b show ?thesis by blast
qed

lemma expired_owner: "expired (cfg\<lparr>OWNER_ID := o'\<rparr>) = expired cfg"
  by (intro ext) (simp add: expired_def)

lemma pop_expired_owner: "pop_expired (cfg\<lparr>OWNER_ID := o'\<rparr>) now q = pop_expired cfg now q"
  by (induction q) (simp_all add: expired_owner)

lemma cleanup_owner: "cleanup (cfg\<lparr>OWNER_ID := o'\<rparr>) = cleanup cfg"
  unfolding cleanup_def pop_expired_owner by (rule refl)

lemma finish_owner: "finish (cfg\<lparr>OWNER_ID := o'\<rparr>) = finish cfg"
  by (intro ext) (simp add: finish_def)

lemma repost_owner: "repost (cfg\<lparr>OWNER_ID := o'\<rparr>) = repost cfg"
  unfolding repost_def finish_owner by (rule refl)

lemma handle_photo_owner:
  assumes "\<not> skip_user cfg message"
  shows "handle_photo cfg now now_c message g =
         handle_photo (cfg\<lparr>OWNER_ID := None\<rparr>) now now_c message g"
proof -
  have "\<not> skip_user (cfg\<lparr>OWNER_ID := None\<rparr>) message" by (simp add: skip_user_def)
  with assms show ?thesis
    unfolding handle_photo_def cleanup_owner by simp
qed

lemma handle_document_owner:
  assumes "\<not> skip_user cfg message"
  shows "handle_document cfg fails now message g =
         handle_document (cfg\<lparr>OWNER_ID := None\<rparr>) fails now message g"
proof -
  have "\<not> skip_user (cfg\<lparr>OWNER_ID := None\<rparr>) message" by (simp add: skip_user_def)
  with assms show ?thesis
    unfolding handle_document_def cleanup_owner repost_owner by simp
qed

lemma repost_calls:
  assumes "file_ids grp \<noteq> []"
  shows "fst (snd (repost cfg fails message filename grp k g)) \<noteq> []"
proof -
  consider "length (file_ids grp) = 1" | "length (file_ids grp) > 1"
    using assms by (cases "file_ids grp") auto
  then show ?thesis
    by cases (simp_all add: repost_single repost_album finish_eq)
qed

lemma repost_pending:
  "pending (fst (repost cfg fails message filename grp k (g(k \<mapsto> rest)))) k = rest"
  using repost_store[of cfg fails message filename grp k "g(k \<mapsto> rest)"]
  by (auto simp: pending_def split: if_splits)

text \<open>
  C6. A message is skipped exactly when an owner is configured and the message does not carry
  that owner as its sender, be it another sender or none. A skipped photo or document leaves
  the dict as it is, makes no call on the bot and returns. With no owner configured no message
  is skipped. A message that is not skipped is handled as it is with no owner configured: a
  photo is stored, and a document that passes the later checks dequeues the front batch and
  calls the bot to repost it.
\<close>

theorem sender_check:
  "(skip_user cfg message \<longleftrightarrow>
      (\<exists>owner. OWNER_ID cfg = Some owner \<and> from_user message \<noteq> Some owner)) \<and>
   (skip_user cfg message \<longrightarrow>
      handle_photo cfg now now_c message g = (g, [], Returned) \<and>
      handle_document cfg fails now_d message g = (g, [], Returned)) \<and>
   (OWNER_ID cfg = None \<longrightarrow> \<not> skip_user cfg message) \<and>
   (\<not> skip_user cfg message \<and> photo message \<noteq> [] \<longrightarrow>
      handle_photo cfg now now_c message g =
        (cleanup cfg now_c (key_of message)
           (g(key_of message \<mapsto>
                add_photo (msg_media_group_id message) (last (photo message))
                  (message_id message) now (pending g (key_of message)))),
         [], Returned)) \<and>
   (\<not> skip_user cfg message \<and> document message = Some doc \<and>
    file_name doc = Some filename \<and> filename \<noteq> [] \<and>
    extension filename \<in> ALLOWED_EXTENSIONS \<and>
    g (key_of message) = Some q \<and> pop_expired cfg now_d q = grp # rest \<and>
    \<not> (message_ids grp \<noteq> [] \<and> last (message_ids grp) \<ge> message_id message) \<longrightarrow>
      handle_document cfg fails now_d message g =
        repost cfg fails message filename grp (key_of message)
          (g(key_of message \<mapsto> rest)) \<and>
      pending (fst (handle_document cfg fails now_d message g)) (key_of message) = rest \<and>
      (file_ids grp \<noteq> [] \<longrightarrow> fst (snd (handle_document cfg fails now_d message g)) \<noteq> [])) \<and>
   (\<not> skip_user cfg message \<longrightarrow>
      handle_photo cfg now now_c message g =
        handle_photo (cfg\<lparr>OWNER_ID := None\<rparr>) now now_c message g \<and>
      handle_document cfg fails now_d message g =
        handle_document (cfg\<lparr>OWNER_ID := None\<rparr>) fails now_d message g)"
proof -
  let ?k = "key_of message"
  have p1: "skip_user cfg message \<longleftrightarrow>
      (\<exists>owner. OWNER_ID cfg = Some owner \<and> from_user message \<noteq> Some owner)"
    by (auto simp: skip_user_def split: option.splits)
  have p2: "skip_user cfg message \<longrightarrow>
      handle_photo cfg now now_c message g = (g, [], Returned) \<and>
      handle_document cfg fails now_d message g = (g, [], Returned)"
    by (simp add: handle_photo_def handle_document_def)
  have p3: "OWNER_ID cfg = None \<longrightarrow> \<not> skip_user cfg message"
    by (simp add: skip_user_def)
  have p4: "\<not> skip_user cfg message \<and> photo message \<noteq> [] \<longrightarrow>
      handle_photo cfg now now_c message g =
        (cleanup cfg now_c ?k
           (g(?k \<mapsto>
                add_photo (msg_media_group_id message) (last (photo message))
                  (message_id message) now (pending g ?k))),
         [], Returned)"
    using handle_photo_processed[of cfg message now now_c g] by blast
  have p5: "handle_document cfg fails now_d message g =
        repost cfg fails message filename grp ?k (g(?k \<mapsto> rest)) \<and>
      pending (fst (handle_document cfg fails now_d message g)) ?k = rest \<and>
      (file_ids grp \<noteq> [] \<longrightarrow> fst (snd (handle_document cfg fails now_d message g)) \<noteq> [])"
    if "\<not> skip_user cfg message" "document message = Some doc"
       "file_name doc = Some filename" "filename \<noteq> []"
       "extension filename \<in> ALLOWED_EXTENSIONS"
       "g ?k = Some q" "pop_expired cfg now_d q = grp # rest"
       "\<not> (message_ids grp \<noteq> [] \<and> last (message_ids grp) \<ge> message_id message)"
  proof -
    have r: "handle_document cfg fails now_d message g =
        repost cfg fails message filename grp ?k (g(?k \<mapsto> rest))"
      by (rule handle_document_match[where g = g and fails = fails, OF that])
    show ?thesis
      unfolding r by (simp add: repost_pending repost_calls)
  qed
  have p6: "\<not> skip_user cfg message \<longrightarrow>
      handle_photo cfg now now_c message g =
        handle_photo (cfg\<lparr>OWNER_ID := None\<rparr>) now now_c message g \<and>
      handle_document cfg fails now_d message g =
        handle_document (cfg\<lparr>OWNER_ID := None\<rparr>) fails now_d message g"
    using handle_photo_owner[of cfg message now now_c g]
      handle_document_owner[of cfg message fails now_d g] by blast
  from p1 p2 p3 p4 p5 p6 show ?thesis by blast
qed

theorem sender_check_witness:
  "skip_user (bot_config\<lparr>OWNER_ID := Some 1\<rparr>) (photo_msg 5 None ''P1'') \<and>
   handle_photo (bot_config\<lparr>OWNER_ID := Some 1\<rparr>) 0 0 (photo_msg 5 None ''P1'') Map.empty =
     (Map.empty, [], Returned) \<and>
   skip_user (bot_config\<lparr>OWNER_ID := Some 1\<rparr>) (doc_msg 12 ''model.stl'') \<and>
   handle_document (bot_config\<lparr>OWNER_ID := Some 1\<rparr>) (\<lambda>n. False) 5
       (doc_msg 12 ''model.stl'') [(1, None) \<mapsto> [album_g1]] =
     ([(1, None) \<mapsto> [album_g1]], [], Returned) \<and>
   \<not> skip_user (bot_config\<lparr>OWNER_ID := Some 7\<rparr>) (photo_msg 5 None ''P1'') \<and>
   \<not> skip_user (bot_config\<lparr>OWNER_ID := Some 7\<rparr>) (doc_msg 12 ''model.stl'') \<and>
   handle_document (bot_config\<lparr>OWNER_ID := Some 7\<rparr>) (\<lambda>n. False) 5
       (doc_msg 12 ''model.stl'') [(1, None) \<mapsto> [album_g1]] =
     (Map.empty,
      [send_media_group 1 [\<lparr>media = ''P1'', caption = Some ''model.stl''\<rparr>,
                           \<lparr>media = ''P2'', caption = None\<rparr>] None,
       delete_message 1 10, delete_message 1 11, delete_message 1 12], Returned) \<and>
   OWNER_ID bot_config = None \<and>
   \<not> skip_user bot_config (photo_msg 5 None ''P1''\<lparr>from_user := None\<rparr>) \<and>
   \<not> skip_user bot_config (doc_msg 6 ''part.zip''\<lparr>from_user := None\<rparr>) \<and>
   fst (snd (handle_document bot_config (\<lambda>n. False) 5
       (doc_msg 6 ''part.zip''\<lparr>from_user := None\<rparr>) [(1, None) \<mapsto> [single_p1]])) \<noteq> [] \<and>
   pending (fst (handle_document bot_config (\<lambda>n. False) 5
       (doc_msg 6 ''part.zip''\<lparr>from_user := None\<rparr>) [(1, None) \<mapsto> [single_p1]]))
     (key_of (doc_msg 6 ''part.zip''\<lparr>from_user := None\<rparr>)) = []"
proof -
  let ?c1 = "bot_config\<lparr>OWNER_ID := Some 1\<rparr>"
  let ?c7 = "bot_config\<lparr>OWNER_ID := Some 7\<rparr>"
  let ?d = "doc_msg 12 ''model.stl''"
  let ?ga = "[(1, None) \<mapsto> [album_g1]]"
  let ?dn = "doc_msg 6 ''part.zip''\<lparr>from_user := None\<rparr>"
  let ?gs = "[(1, None) \<mapsto> [single_p1]]"
  have h1: "skip_user ?c1 (photo_msg 5 None ''P1'')"
    by (simp add: scenario_defs)
  have h1d: "skip_user ?c1 ?d"
    by (simp add: scenario_defs)
  have h2: "OWNER_ID bot_config = None" by (simp add: scenario_defs)
  have h3: "\<not> skip_user ?c7 (photo_msg 5 None ''P1'')"
    by (simp add: scenario_defs)
  have h3d: "\<not> skip_user ?c7 ?d"
    by (simp add: scenario_defs)
  from sender_check[of ?c1 "photo_msg 5 None ''P1''" 0 0 Map.empty "\<lambda>n. False" 0] h1
  have a: "handle_photo ?c1 0 0 (photo_msg 5 None ''P1'') Map.empty =
      (Map.empty, [], Returned)"
    by blast
  from sender_check[of ?c1 ?d 0 0 ?ga "\<lambda>n. False" 5] h1d
  have ad: "handle_document ?c1 (\<lambda>n. False) 5 ?d ?ga = (?ga, [], Returned)"
    by blast
  from sender_check[of bot_config "photo_msg 5 None ''P1''\<lparr>from_user := None\<rparr>" 0 0
      Map.empty "\<lambda>n. False" 0] h2
  have b: "\<not> skip_user bot_config (photo_msg 5 None ''P1''\<lparr>from_user := None\<rparr>)"
    by blast
  from sender_check[of bot_config ?dn 0 0 ?gs "\<lambda>n. False" 5] h2
  have bd: "\<not> skip_user bot_config ?dn"
    by blast
  have g1: "document ?d = Some \<lparr>file_name = Some ''model.stl''\<rparr> \<and>
     file_name \<lparr>file_name = Some ''model.stl''\<rparr> = Some ''model.stl'' \<and>
     ''model.stl'' \<noteq> [] \<and> extension ''model.stl'' \<in> ALLOWED_EXTENSIONS \<and>
     ?ga (key_of ?d) = Some [album_g1] \<and>
     pop_expired ?c7 5 [album_g1] = album_g1 # [] \<and>
     \<not> (message_ids album_g1 \<noteq> [] \<and> last (message_ids album_g1) \<ge> message_id ?d)"
    by (simp add: scenario_defs)
  from sender_check[where cfg = ?c7 and message = ?d and g = ?ga and fails = "\<lambda>n. False"
      and now_d = 5 and doc = "\<lparr>file_name = Some ''model.stl''\<rparr>"
      and filename = "''model.stl''" and q = "[album_g1]" and grp = album_g1 and rest = "[]"]
    h3d g1
  have "handle_document ?c7 (\<lambda>n. False) 5 ?d ?ga =
      repost ?c7 (\<lambda>n. False) ?d ''model.stl'' album_g1 (key_of ?d) (?ga(key_of ?d \<mapsto> []))"
    by blast
  then have cd: "handle_document ?c7 (\<lambda>n. False) 5 ?d ?ga =
     (Map.empty,
      [send_media_group 1 [\<lparr>media = ''P1'', caption = Some ''model.stl''\<rparr>,
                           \<lparr>media = ''P2'', caption = None\<rparr>] None,
       delete_message 1 10, delete_message 1 11, delete_message 1 12], Returned)"
    by (simp add: repost_def finish_def call_def try_delete_def scenario_defs)
  have g2: "document ?dn = Some \<lparr>file_name = Some ''part.zip''\<rparr> \<and>
     file_name \<lparr>file_name = Some ''part.zip''\<rparr> = Some ''part.zip'' \<and>
     ''part.zip'' \<noteq> [] \<and> extension ''part.zip'' \<in> ALLOWED_EXTENSIONS \<and>
     ?gs (key_of ?dn) = Some [single_p1] \<and>
     pop_expired bot_config 5 [single_p1] = single_p1 # [] \<and>
     \<not> (message_ids single_p1 \<noteq> [] \<and> last (message_ids single_p1) \<ge> message_id ?dn) \<and>
     file_ids single_p1 \<noteq> []"
    by (simp add: scenario_defs)
  from sender_check[where cfg = bot_config and message = ?dn and g = ?gs
      and fails = "\<lambda>n. False" and now_d = 5 and doc = "\<lparr>file_name = Some ''part.zip''\<rparr>"
      and filename = "''part.zip''" and q = "[single_p1]" and grp = single_p1 and rest = "[]"]
    bd g2
  have dd: "fst (snd (handle_document bot_config (\<lambda>n. False) 5 ?dn ?gs)) \<noteq> [] \<and>
     pending (fst (handle_document bot_config (\<lambda>n. False) 5 ?dn ?gs)) (key_of ?dn) = []"
    by blast
  from h1 a h1d ad h3 h3d cd h2 b bd dd show ?thesis by blast
qed

lemma sorted_le_last:
  fixes xs :: "int list"
  shows "sorted xs \<Longrightarrow> x \<in> set xs \<Longrightarrow> x \<le> last xs"
  by (induction xs) (auto split: if_splits)

lemma expired_before_last:
  assumes "sorted (map created_at q)" and "q \<noteq> []" and "expired cfg now (last q)"
    and "b \<in> set q"
  shows "expired cfg now b"
proof -
  from assms(4) have "created_at b \<in> set (map created_at q)" by simp
  with assms(1) have "created_at b \<le> last (map created_at q)" by (rule sorted_le_last)
  with assms(2) have "created_at b \<le> created_at (last q)" by (simp add: last_map)
  with assms(3) show ?thesis by (simp add: expired_def)
qed

text \<open>
  C10. A photo that extends the last batch of a queue whose \<open>created_at\<close> values do not
  decrease, when that batch is already older than the TTL at the clock reading \<open>_cleanup\<close>
  takes: the photo is appended to the batch, every batch of the queue is then evicted, the key
  is removed from the dict, no call is made on the bot and the handler returns.
\<close>

theorem late_album_photo_is_evicted:
  assumes "\<not> skip_user cfg message" and "photo message \<noteq> []"
    and "g (key_of message) = Some q" and "q \<noteq> []"
    and "truthy (msg_media_group_id message)"
    and "media_group_id (last q) = msg_media_group_id message"
    and "sorted (map created_at q)"
    and "expired cfg now_c (last q)"
  shows "add_photo (msg_media_group_id message) (last (photo message)) (message_id message)
           now q =
         butlast q @
           [(last q)\<lparr>file_ids := file_ids (last q) @ [last (photo message)],
                     message_ids := message_ids (last q) @ [message_id message]\<rparr>] \<and>
         handle_photo cfg now now_c message g = (g(key_of message := None), [], Returned)"
proof -
  let ?k = "key_of message"
  let ?q' = "add_photo (msg_media_group_id message) (last (photo message))
               (message_id message) now q"
  let ?b = "(last q)\<lparr>file_ids := file_ids (last q) @ [last (photo message)],
                     message_ids := message_ids (last q) @ [message_id message]\<rparr>"
  have q': "?q' = butlast q @ [?b]"
    using assms(4,5,6) by (simp add: add_photo_def)
  have all: "\<forall>b\<in>set q. expired cfg now_c b"
    using expired_before_last[OF assms(7) assms(4) assms(8)] by blast
  have "\<forall>b\<in>set (butlast q). expired cfg now_c b"
    using all by (auto dest: in_set_butlastD)
  moreover have "expired cfg now_c ?b"
    using assms(8) by (simp add: expired_def)
  ultimately have "\<forall>b\<in>set ?q'. expired cfg now_c b"
    unfolding q' by auto
  then have pe: "pop_expired cfg now_c ?q' = []" by (rule pop_expired_all)
  have ne: "?q' \<noteq> []" unfolding q' by simp
  have "handle_photo cfg now now_c message g =
     (cleanup cfg now_c ?k (g(?k \<mapsto> ?q')), [], Returned)"
    using handle_photo_processed[OF assms(1,2)] assms(3) by (simp add: pending_def)
  moreover have "cleanup cfg now_c ?k (g(?k \<mapsto> ?q')) = g(?k := None)"
    using pe ne by (simp add: cleanup_def)
  ultimately show ?thesis using q' by simp
qed

theorem late_album_photo_is_evicted_witness:
  "\<not> skip_user bot_config (photo_msg 12 (Some ''g1'') ''P3'') \<and>
   photo (photo_msg 12 (Some ''g1'') ''P3'') \<noteq> [] \<and>
   truthy (msg_media_group_id (photo_msg 12 (Some ''g1'') ''P3'')) \<and>
   media_group_id (last [single_p1, album_g1]) =
     msg_media_group_id (photo_msg 12 (Some ''g1'') ''P3'') \<and>
   sorted (map created_at [single_p1, album_g1]) \<and>
   expired bot_config 660000000 (last [single_p1, album_g1]) \<and>
   handle_photo bot_config 660000000 660000000 (photo_msg 12 (Some ''g1'') ''P3'')
     [(1, None) \<mapsto> [single_p1, album_g1], (2, None) \<mapsto> [single_p1]] =
     ([(2, None) \<mapsto> [single_p1]], [], Returned)"
proof -
  have h1: "\<not> skip_user bot_config (photo_msg 12 (Some ''g1'') ''P3'')"
    by (simp add: scenario_defs)
  have h2: "photo (photo_msg 12 (Some ''g1'') ''P3'') \<noteq> []"
    by (simp add: scenario_defs)
  have h3: "[(1, None) \<mapsto> [single_p1, album_g1], (2, None) \<mapsto> [single_p1]]
      (key_of (photo_msg 12 (Some ''g1'') ''P3'')) = Some [single_p1, album_g1]"
    by (simp add: scenario_defs)
  have h4: "[single_p1, album_g1] \<noteq> []" by simp
  have h5: "truthy (msg_media_group_id (photo_msg 12 (Some ''g1'') ''P3''))"
    by (simp add: truthy_def scenario_defs)
  have h6: "media_group_id (last [single_p1, album_g1]) =
     msg_media_group_id (photo_msg 12 (Some ''g1'') ''P3'')"
    by (simp add: scenario_defs)
  have h7: "sorted (map created_at [single_p1, album_g1])"
    by (simp add: scenario_defs)
  have h8: "expired bot_config 660000000 (last [single_p1, album_g1])"
    by (simp add: scenario_defs)
  have e: "[(1, None) \<mapsto> [single_p1, album_g1], (2, None) \<mapsto> [single_p1]]
      (key_of (photo_msg 12 (Some ''g1'') ''P3'') := None) = [(2, None) \<mapsto> [single_p1]]"
    by (auto simp: scenario_defs)
  from late_album_photo_is_evicted[where
      g = "[(1, None) \<mapsto> [single_p1, album_g1], (2, None) \<mapsto> [single_p1]]"
      and now = 660000000, OF h1 h2 h3 h4 h5 h6 h7 h8] e
  have "handle_photo bot_config 660000000 660000000 (photo_msg 12 (Some ''g1'') ''P3'')
     [(1, None) \<mapsto> [single_p1, album_g1], (2, None) \<mapsto> [single_p1]] =
     ([(2, None) \<mapsto> [single_p1]], [], Returned)"
    by simp
  with h1 h2 h5 h6 h7 h8 show ?thesis by blast
qed

lemma store_okD: "store_ok g \<Longrightarrow> g k = Some q \<Longrightarrow> b \<in> set q \<Longrightarrow> batch_ok b"
  unfolding store_ok_def by blast

lemma add_photo_ok:
  assumes "\<forall>b\<in>set q. batch_ok b"
  shows "\<forall>b\<in>set (add_photo mgid fid mid now q). batch_ok b"
proof (cases "truthy mgid \<and> q \<noteq> [] \<and> media_group_id (last q) = mgid")
  case True
  then have "last q \<in> set q" by simp
  with assms have "batch_ok (last q)" by blast
  then have "batch_ok ((last q)\<lparr>file_ids := file_ids (last q) @ [fid],
                       message_ids := message_ids (last q) @ [mid]\<rparr>)"
    by (simp add: batch_ok_def)
  moreover have "\<forall>b\<in>set (butlast q). batch_ok b"
    using assms by (auto dest: in_set_butlastD)
  ultimately show ?thesis using True by (simp add: add_photo_def)
next
  case False
  with assms show ?thesis by (auto simp: add_photo_def batch_ok_def)
qed

lemma pop_expired_subset: "set (pop_expired cfg now q) \<subseteq> set q"
  by (induction q) auto

lemma cleanup_ok:
  assumes "store_ok g"
  shows "store_ok (cleanup cfg now k g)"
  unfolding store_ok_def
proof (intro allI impI)
  fix k' q'
  assume a: "cleanup cfg now k g k' = Some q'"
  show "\<forall>b\<in>set q'. batch_ok b"
  proof (cases "k' = k")
    case False
    with a have "g k' = Some q'" by (simp add: cleanup_other)
    with assms show ?thesis by (blast dest: store_okD)
  next
    case True
    with a obtain q where q: "g k = Some q" "set q' \<subseteq> set q"
      using pop_expired_subset[of cfg now]
      by (auto simp: cleanup_def Let_def split: option.splits if_splits)
    with assms show ?thesis by (blast dest: store_okD)
  qed
qed

lemma store_ok_upd:
  assumes "store_ok g" and "\<forall>b\<in>set q. batch_ok b"
  shows "store_ok (g(k \<mapsto> q))"
  using assms by (auto simp: store_ok_def)

lemma store_ok_del:
  assumes "store_ok g"
  shows "store_ok (g(k := None))"
  using assms by (auto simp: store_ok_def)

lemma store_ok_pending:
  assumes "store_ok g"
  shows "\<forall>b\<in>set (pending g k). batch_ok b"
  using assms by (cases "g k") (auto simp: pending_def dest: store_okD)

lemma handle_photo_ok:
  assumes "store_ok g"
  shows "store_ok (fst (handle_photo cfg now now_c message g))"
proof (cases "skip_user cfg message")
  case True
  with assms show ?thesis by (simp add: handle_photo_def)
next
  case ns: False
  show ?thesis
  proof (cases "photo message = []")
    case True
    with ns assms show ?thesis
      by (auto simp: handle_photo_def queue_def Let_def store_ok_def split: option.splits)
  next
    case False
    from store_ok_pending[OF assms] have
      "\<forall>b\<in>set (add_photo (msg_media_group_id message) (last (photo message))
          (message_id message) now (pending g (key_of message))). batch_ok b"
      by (rule add_photo_ok)
    with assms have "store_ok (g(key_of message \<mapsto>
        add_photo (msg_media_group_id message) (last (photo message))
          (message_id message) now (pending g (key_of message))))"
      by (rule store_ok_upd)
    then show ?thesis
      using ns False by (simp add: handle_photo_processed cleanup_ok)
  qed
qed

lemma handle_document_ok:
  assumes "store_ok g"
  shows "store_ok (fst (handle_document cfg fails now message g))"
proof -
  let ?k = "key_of message"
  from handle_document_cases[of cfg fails now message g]
  consider "handle_document cfg fails now message g = (g, [], Returned)"
    | "handle_document cfg fails now message g = (cleanup cfg now ?k g, [], Returned)"
    | doc filename q grp rest where
      "\<not> skip_user cfg message" "document message = Some doc"
      "file_name doc = Some filename" "filename \<noteq> []"
      "extension filename \<in> ALLOWED_EXTENSIONS"
      "g ?k = Some q" "pop_expired cfg now q = grp # rest"
      "\<not> (message_ids grp \<noteq> [] \<and> last (message_ids grp) \<ge> message_id message)"
    by blast
  then show ?thesis
  proof cases
    case 1
    with assms show ?thesis by simp
  next
    case 2
    with assms show ?thesis by (simp add: cleanup_ok)
  next
    case 3
    have r: "handle_document cfg fails now message g =
         repost cfg fails message filename grp ?k (g(?k \<mapsto> rest))"
      by (rule handle_document_match[where g = g and fails = fails, OF 3])
    have "set rest \<subseteq> set q"
      using pop_expired_subset[of cfg now q] 3(7) by auto
    with assms 3(6) have "\<forall>b\<in>set rest. batch_ok b" by (blast dest: store_okD)
    with assms have u: "store_ok (g(?k \<mapsto> rest))" by (rule store_ok_upd)
    then have d: "store_ok ((g(?k \<mapsto> rest))(?k := None))" by (rule store_ok_del)
    from repost_store[of cfg fails message filename grp ?k "g(?k \<mapsto> rest)"] u d
    show ?thesis unfolding r by (auto split: if_splits)
  qed
qed

lemma reachable_ok: "reachable cfg g \<Longrightarrow> store_ok g"
proof (induction rule: reachable.induct)
  case init
  then show ?case by (simp add: store_ok_def)
next
  case (photo_step g now now_c message g' tr out)
  from handle_photo_ok[OF photo_step.IH, of cfg now now_c message] photo_step.hyps(2)
  show ?case by simp
next
  case (document_step g fails now message g' tr out)
  from handle_document_ok[OF document_step.IH, of cfg fails now message] document_step.hyps(2)
  show ?case by simp
qed

text \<open>
  C7. In every dict the bot can reach from the empty one, by any sequence of photo and
  document handler runs, every batch has as many file ids as message ids and at least one of
  each. A new batch starts with one of each, an extended batch gets one more of each, and
  eviction and matching only remove batches.
\<close>

theorem batches_keep_parallel_lists:
  "(reachable cfg g \<and> g k = Some q \<and> b \<in> set q \<longrightarrow>
      length (file_ids b) = length (message_ids b) \<and> 1 \<le> length (file_ids b)) \<and>
   (store_ok g \<longrightarrow>
      store_ok (fst (handle_photo cfg now now_c message g)) \<and>
      store_ok (fst (handle_document cfg fails now message g)) \<and>
      store_ok (cleanup cfg now k g))"
proof -
  have "length (file_ids b) = length (message_ids b) \<and> 1 \<le> length (file_ids b)"
    if "reachable cfg g" "g k = Some q" "b \<in> set q"
  proof -
    from that(1) have "store_ok g" by (rule reachable_ok)
    with that(2,3) have "batch_ok b" by (blast dest: store_okD)
    then show ?thesis by (simp add: batch_ok_def)
  qed
  then show ?thesis
    using handle_photo_ok[of g cfg now now_c message]
      handle_document_ok[of g cfg fails now message] cleanup_ok[of g cfg now k]
    by blast
qed

theorem batches_keep_parallel_lists_witness:
  "reachable bot_config
     [(1, None) \<mapsto> [\<lparr>media_group_id = Some ''g1'', file_ids = [''P1'', ''P2''],
                        message_ids = [10, 11], created_at = 3\<rparr>]] \<and>
   length (file_ids \<lparr>media_group_id = Some ''g1'', file_ids = [''P1'', ''P2''],
                      message_ids = [10, 11], created_at = 3\<rparr>) =
   length (message_ids \<lparr>media_group_id = Some ''g1'', file_ids = [''P1'', ''P2''],
                         message_ids = [10, 11], created_at = 3\<rparr>)"
proof -
  let ?b1 = "\<lparr>media_group_id = Some ''g1'', file_ids = [''P1''],
               message_ids = [10], created_at = 3\<rparr>"
  let ?b2 = "\<lparr>media_group_id = Some ''g1'', file_ids = [''P1'', ''P2''],
               message_ids = [10, 11], created_at = 3\<rparr>"
  have s1: "handle_photo bot_config 3 3 (photo_msg 10 (Some ''g1'') ''P1'') Map.empty =
      ([(1, None) \<mapsto> [?b1]], [], Returned)"
    by (simp add: handle_photo_def queue_def add_photo_def cleanup_def truthy_def
        scenario_defs)
  have s2: "handle_photo bot_config 4 4 (photo_msg 11 (Some ''g1'') ''P2'')
      [(1, None) \<mapsto> [?b1]] = ([(1, None) \<mapsto> [?b2]], [], Returned)"
    by (simp add: handle_photo_def queue_def add_photo_def cleanup_def truthy_def
        scenario_defs)
  have r1: "reachable bot_config [(1, None) \<mapsto> [?b1]]"
    by (rule reachable.photo_step[OF reachable.init s1])
  have r2: "reachable bot_config [(1, None) \<mapsto> [?b2]]"
    by (rule reachable.photo_step[OF r1 s2])
  have k: "[(1, None) \<mapsto> [?b2]] (1, None) = Some [?b2]" by simp
  have m: "?b2 \<in> set [?b2]" by simp
  from batches_keep_parallel_lists[where g = "[(1, None) \<mapsto> [?b2]]" and k = "(1, None)"
      and q = "[?b2]" and b = ?b2 and cfg = bot_config] r2 k m
  have "length (file_ids ?b2) = length (message_ids ?b2)" by blast
  with r2 show ?thesis by blast
qed

lemma extension_after_last_dot:
  assumes "CHR ''.'' \<notin> set suf"
  shows "extension (pre @ CHR ''.'' # suf) = lower suf"
proof -
  have "takeWhile (\<lambda>c. c \<noteq> CHR ''.'') (rev suf @ CHR ''.'' # rev pre) = rev suf"
    using assms by (simp add: takeWhile_append)
  then show ?thesis by (simp add: extension_def rsplit1_def Let_def)
qed

lemma extension_no_dot:
  assumes "CHR ''.'' \<notin> set name"
  shows "extension name = lower name"
proof -
  have "takeWhile (\<lambda>c. c \<noteq> CHR ''.'') (rev name) = rev name"
    using assms by (auto simp: takeWhile_eq_all_conv)
  with assms show ?thesis by (simp add: extension_def rsplit1_def Let_def)
qed

lemma disallowed_extension_rejected:
  assumes "document message = Some doc" and "file_name doc = Some filename"
    and "extension filename \<notin> ALLOWED_EXTENSIONS"
  shows "handle_document cfg fails now message g = (g, [], Returned)"
  using assms by (simp add: handle_document_def)

text \<open>
  C2. The file name \<open>zip\<close> has no dot, hence no extension; \<open>rsplit\<close> then yields the whole
  name, which is in the allowed set, so the document is not rejected: it consumes the pending
  batch, reposts it and deletes the messages.
\<close>

theorem dotless_name_is_accepted:
  "CHR ''.'' \<notin> set ''zip'' \<and> extension ''zip'' = ''zip'' \<and>
   handle_document bot_config (\<lambda>n. False) 0 (doc_msg 6 ''zip'')
     [(1, None) \<mapsto> [single_p1]] =
     (Map.empty,
      [send_photo 1 ''P1'' ''zip'' None, delete_message 1 5, delete_message 1 6], Returned)"
  by (simp add: handle_document_def cleanup_def repost_def finish_def call_def
      try_delete_def scenario_defs)

end
